theory Spec2Isabelle
  imports Main
begin

section \<open>The normalized environment wrapper\<close>

text \<open>
  A shallow embedding of \<^verbatim>\<open>trajectories/normalized_env_wrapper.py\<close>: the class
  \<^verbatim>\<open>NormalizedEnvWrapper\<close>, its constructor and its methods. Python objects that are
  shared by reference (the parallel environment set) live in an explicit store; every
  raise is a value of type \<open>error\<close>. Arrays (\<open>'a\<close>), floats (\<open>'r\<close>), actions, infos and
  space descriptors are type parameters: the wrapper only passes them on.
\<close>

subsection \<open>Errors\<close>

datatype error =
    CollaboratorError  \<comment> \<open>an exception of the environment library, passed on unchanged\<close>
  | AttributeError     \<comment> \<open>reading an attribute that was never assigned, or an attribute of \<^verbatim>\<open>None\<close>\<close>
  | TypeError          \<comment> \<open>a keyword given twice in a call\<close>
  | InvalidHandle      \<comment> \<open>a reference outside the store; no Python state has one\<close>

subsection \<open>The environment library\<close>

text \<open>
  One element of \<^verbatim>\<open>func_list\<close>: the arguments frozen by
  \<^verbatim>\<open>partial(fancy_gym.make, env_id=env_id, seed=seed + i,
  max_episode_length=max_episode_length, normalize_obs=norm_obs, **kwargs)\<close>.
\<close>

record 'kw env_fn =
  fn_env_id :: string
  fn_seed :: int
  fn_max_episode_length :: int
  fn_normalize_obs :: "bool option"
  fn_kwargs :: "(string \<times> 'kw) list"

text \<open>
  \<^verbatim>\<open>SubprocVecEnv\<close> is an external library: its constructor and methods are parameters of
  the model. \<open>'e\<close> is the state of one environment set; \<open>None\<close> is a raised exception.
\<close>

record ('kw, 'e, 'act, 'a, 'info, 'sp) vec_env =
  spawn :: "'kw env_fn list \<Rightarrow> 'e option"
  env_reset :: "'e \<Rightarrow> ('a \<times> 'e) option"
  env_step :: "'act \<Rightarrow> 'e \<Rightarrow> (('a \<times> 'a \<times> bool list \<times> 'info) \<times> 'e) option"
  env_render :: "string \<Rightarrow> (string \<times> 'kw) list \<Rightarrow> 'e \<Rightarrow> 'e option"
  env_observation_space :: "'e \<Rightarrow> 'sp"
  env_action_space :: "'e \<Rightarrow> 'sp"

subsection \<open>The normalizers\<close>

text \<open>
  Modelled from the spec: the module \<^verbatim>\<open>env_normalizer\<close> (classes \<^verbatim>\<open>BaseNormalizer\<close> and
  \<^verbatim>\<open>MovingAvgNormalizer\<close>) is imported by the wrapper and is not among the sources. The
  configuration is the spec's NormalizerConfig, with the fields the wrapper's constructor
  call names.
\<close>

record 'r normalizer_config =
  shape :: "nat list"
  center :: bool
  scale :: bool
  gamma :: 'r
  clip :: "'r option"

text \<open>
  Modelled from the spec: a normalizer object. \<^verbatim>\<open>BaseNormalizer\<close> is the no-op variant and
  has no statistics; \<^verbatim>\<open>MovingAvgNormalizer\<close> holds the normalizer it was constructed over,
  its configuration, and its statistics \<open>'s\<close> (RunningMoments with the per-slot
  EpisodeState).
\<close>

datatype ('r, 's) normalizer =
    BaseNormalizer
  | MovingAvgNormalizer (prev: "('r, 's) normalizer") (config: "'r normalizer_config") (stats: 's)

text \<open>
  Modelled from the spec: the numeric rules of the missing module, which the spec leaves
  open (the incremental formula and the per-slot reset are "unspecified pending access to
  that module"). They are parameters: the zero state for a shape, the incremental update
  with the discount, subtracting the mean, dividing by the floored standard deviation,
  clamping to \<open>[-c, c]\<close>, and the reset of the slots whose episode is done.
\<close>

record ('a, 'r, 's) numerics =
  zero_state :: "nat list \<Rightarrow> 's"
  push :: "'r \<Rightarrow> 'a \<Rightarrow> 's \<Rightarrow> 's"
  sub_mean :: "'s \<Rightarrow> 'a \<Rightarrow> 'a"
  div_std :: "'s \<Rightarrow> 'a \<Rightarrow> 'a"
  clamp :: "'r \<Rightarrow> 'a \<Rightarrow> 'a"
  reset_slots :: "bool list \<Rightarrow> 's \<Rightarrow> 's"

text \<open>
  Modelled from the spec: the transform of section 4.1. Subtract the mean if \<open>center\<close>,
  divide by the standard deviation if \<open>scale\<close>, clamp if \<open>clip\<close> is not none.
\<close>

definition transform :: "('a, 'r, 's) numerics \<Rightarrow> 'r normalizer_config \<Rightarrow> 's \<Rightarrow> 'a \<Rightarrow> 'a" where
  "transform num cfg st x =
     (let y1 = (if center cfg then sub_mean num st x else x);
          y2 = (if scale cfg then div_std num st y1 else y1)
      in case clip cfg of None \<Rightarrow> y2 | Some c \<Rightarrow> clamp num c y2)"

text \<open>
  Modelled from the spec: \<^verbatim>\<open>normalizer(x, update=True)\<close>. With \<open>update\<close> the statistics are
  updated first and the sample is transformed with the updated statistics; without it the
  same transform is applied and the statistics are left as they are. The result is the
  returned sample and the normalizer object after the call.
\<close>

fun normalizer_call ::
  "('a, 'r, 's) numerics \<Rightarrow> bool \<Rightarrow> 'a \<Rightarrow> ('r, 's) normalizer \<Rightarrow> 'a \<times> ('r, 's) normalizer" where
  "normalizer_call num update x BaseNormalizer = (x, BaseNormalizer)"
| "normalizer_call num update x (MovingAvgNormalizer p cfg st) =
     (let st' = (if update then push num (gamma cfg) x st else st)
      in (transform num cfg st' x, MovingAvgNormalizer p cfg st'))"

text \<open>
  Modelled from the spec: \<^verbatim>\<open>normalizer.reset(done_mask=None)\<close>. Without a mask all
  accumulators return to the zero state; with a mask only the slots that are done are
  reset.
\<close>

fun normalizer_reset ::
  "('a, 'r, 's) numerics \<Rightarrow> bool list option \<Rightarrow> ('r, 's) normalizer \<Rightarrow> ('r, 's) normalizer" where
  "normalizer_reset num dm BaseNormalizer = BaseNormalizer"
| "normalizer_reset num None (MovingAvgNormalizer p cfg st) =
     MovingAvgNormalizer p cfg (zero_state num (shape cfg))"
| "normalizer_reset num (Some dones) (MovingAvgNormalizer p cfg st) =
     MovingAvgNormalizer p cfg (reset_slots num dones st)"

subsection \<open>The wrapper object and the store\<close>

text \<open>
  The attributes of a \<^verbatim>\<open>NormalizedEnvWrapper\<close>. \<open>envs\<close> and \<open>envs_test\<close> are references into
  the store (\<open>None\<close> is Python's \<^verbatim>\<open>None\<close>); \<open>last_obs\<close> is \<open>None\<close> while the attribute has
  not been assigned.
\<close>

record ('kw, 'a, 'r, 's) wrapper =
  max_episode_length :: int
  env_fns :: "'kw env_fn list"
  envs :: "nat option"
  envs_test :: "nat option"
  norm_obs :: "bool option"
  clip_obs :: "'r option"
  norm_rewards :: "bool option"
  clip_rewards :: "'r option"
  state_normalizer :: "('r, 's) normalizer"
  reward_normalizer :: "('r, 's) normalizer"
  last_obs :: "'a option"

text \<open>The store of environment sets: a reference is an index into the list.\<close>

type_synonym 'e store = "'e list"

definition deref :: "nat option \<Rightarrow> 'e store \<Rightarrow> error + (nat \<times> 'e)" where
  "deref r \<sigma> =
     (case r of
        None \<Rightarrow> Inl AttributeError
      | Some h \<Rightarrow> if h < length \<sigma> then Inr (h, \<sigma> ! h) else Inl InvalidHandle)"

subsection \<open>The constructor\<close>

text \<open>The arguments of \<^verbatim>\<open>__init__\<close>; \<^verbatim>\<open>Union[bool, None]\<close> is \<open>bool option\<close>.\<close>

record ('kw, 'r) init_args =
  arg_env_id :: string
  arg_n_envs :: int
  arg_n_test_envs :: int
  arg_max_episode_length :: int
  arg_gamma :: 'r
  arg_norm_obs :: "bool option"
  arg_clip_obs :: "'r option"
  arg_norm_rewards :: "bool option"
  arg_clip_rewards :: "'r option"
  arg_seed :: int
  arg_kwargs :: "(string \<times> 'kw) list"

text \<open>The keywords the \<^verbatim>\<open>partial\<close> call of line 70 writes out.\<close>

definition partial_keywords :: "string list" where
  "partial_keywords = [''env_id'', ''seed'', ''max_episode_length'', ''normalize_obs'']"

text \<open>
  Lines 70-71: one constructor per \<open>i\<close> in \<^verbatim>\<open>range(n_envs)\<close> (none when \<open>n_envs \<le> 0\<close>). The
  call in the comprehension's body raises TypeError when \<^verbatim>\<open>**kwargs\<close> repeats a keyword
  the call writes out; the body runs only when the range is not empty.
\<close>

definition func_list :: "('kw, 'r) init_args \<Rightarrow> error + 'kw env_fn list" where
  "func_list args =
     (if 0 < arg_n_envs args \<and> list_ex (\<lambda>k. k \<in> set partial_keywords) (map fst (arg_kwargs args))
      then Inl TypeError
      else Inr (map (\<lambda>i. \<lparr>fn_env_id = arg_env_id args, fn_seed = arg_seed args + i,
                          fn_max_episode_length = arg_max_episode_length args,
                          fn_normalize_obs = arg_norm_obs args,
                          fn_kwargs = arg_kwargs args\<rparr>)
                    [0 .. arg_n_envs args - 1]))"

text \<open>
  Lines 92-95: the reward normalizer. \<^verbatim>\<open>if self.norm_rewards\<close> is taken for \<^verbatim>\<open>True\<close> only
  (\<^verbatim>\<open>False\<close> and \<^verbatim>\<open>None\<close> are falsy). A new MovingAvgNormalizer starts in the zero state
  (modelled from the spec: "RunningMoments created at Normalizer construction with zero
  count").
\<close>

definition make_reward_normalizer ::
  "('a, 'r, 's) numerics \<Rightarrow> ('kw, 'r) init_args \<Rightarrow> ('r, 's) normalizer" where
  "make_reward_normalizer num args =
     (if arg_norm_rewards args = Some True
      then MovingAvgNormalizer BaseNormalizer
             \<lparr>shape = [], center = False, scale = True, gamma = arg_gamma args,
              clip = arg_clip_rewards args\<rparr>
             (zero_state num [])
      else BaseNormalizer)"

text \<open>
  \<^verbatim>\<open>__init__\<close> (lines 50-101), on a store \<open>\<sigma>\<close>: the new environment set is allocated at the
  end of the store, and both \<open>envs\<close> and \<open>envs_test\<close> are assigned the one reference
  (line 74). The state normalizer is \<^verbatim>\<open>BaseNormalizer()\<close> (line 84; lines 86-89 are
  comments). \<^verbatim>\<open>if n_envs\<close> (line 100) is taken for every \<open>n_envs \<noteq> 0\<close>.
\<close>

definition wrapper_init ::
  "('kw, 'e, 'act, 'a, 'info, 'sp) vec_env \<Rightarrow> ('a, 'r, 's) numerics \<Rightarrow> ('kw, 'r) init_args \<Rightarrow>
   'e store \<Rightarrow> error + (('kw, 'a, 'r, 's) wrapper \<times> 'e store)" where
  "wrapper_init lib num args \<sigma> =
     (case func_list args of
        Inl err \<Rightarrow> Inl err
      | Inr fl \<Rightarrow>
         (case spawn lib fl of
            None \<Rightarrow> Inl CollaboratorError
          | Some e \<Rightarrow>
             (let h = length \<sigma>;
                  w = \<lparr>max_episode_length = arg_max_episode_length args,
                       env_fns = fl,
                       envs = Some h,
                       envs_test = Some h,
                       norm_obs = arg_norm_obs args,
                       clip_obs = arg_clip_obs args,
                       norm_rewards = arg_norm_rewards args,
                       clip_rewards = arg_clip_rewards args,
                       state_normalizer = BaseNormalizer,
                       reward_normalizer = make_reward_normalizer num args,
                       last_obs = None\<rparr>
              in if arg_n_envs args \<noteq> 0
                 then (case env_reset lib e of
                         None \<Rightarrow> Inl CollaboratorError
                       | Some (obs, e') \<Rightarrow> Inr (w\<lparr>last_obs := Some obs\<rparr>, \<sigma> @ [e']))
                 else Inr (w, \<sigma> @ [e]))))"

subsection \<open>The methods\<close>

text \<open>
  \<^verbatim>\<open>step\<close> (lines 103-113). \<^verbatim>\<open>self.last_obs\<close> is assigned at line 107 and read at line
  113; \<^verbatim>\<open>.copy()\<close> returns an equal array.
\<close>

definition step ::
  "('kw, 'e, 'act, 'a, 'info, 'sp) vec_env \<Rightarrow> ('a, 'r, 's) numerics \<Rightarrow> 'act \<Rightarrow>
   ('kw, 'a, 'r, 's) wrapper \<times> 'e store \<Rightarrow>
   error + (('a \<times> 'a \<times> bool list \<times> 'info) \<times> ('kw, 'a, 'r, 's) wrapper \<times> 'e store)" where
  "step lib num actions s =
     (case s of (w, \<sigma>) \<Rightarrow>
      case deref (envs w) \<sigma> of
        Inl err \<Rightarrow> Inl err
      | Inr (h, e) \<Rightarrow>
         (case env_step lib actions e of
            None \<Rightarrow> Inl CollaboratorError
          | Some ((obs, rews, dones, infos), e') \<Rightarrow>
             (case normalizer_call num True obs (state_normalizer w) of (obs_n, sn) \<Rightarrow>
              let w1 = w\<lparr>state_normalizer := sn, last_obs := Some obs_n\<rparr> in
              case normalizer_call num True rews (reward_normalizer w1) of (rews_norm, rn) \<Rightarrow>
              let w2 = w1\<lparr>reward_normalizer := rn\<rparr>;
                  w3 = w2\<lparr>state_normalizer :=
                            normalizer_reset num (Some dones) (state_normalizer w2)\<rparr>;
                  w4 = w3\<lparr>reward_normalizer :=
                            normalizer_reset num (Some dones) (reward_normalizer w3)\<rparr>
              in case last_obs w4 of
                   None \<Rightarrow> Inl AttributeError
                 | Some lo \<Rightarrow> Inr ((lo, rews_norm, dones, infos), (w4, \<sigma>[h := e'])))))"

text \<open>\<^verbatim>\<open>step_test\<close> (lines 115-122): the rewards are returned as the environment gave them.\<close>

definition step_test ::
  "('kw, 'e, 'act, 'a, 'info, 'sp) vec_env \<Rightarrow> ('a, 'r, 's) numerics \<Rightarrow> 'act \<Rightarrow>
   ('kw, 'a, 'r, 's) wrapper \<times> 'e store \<Rightarrow>
   error + (('a \<times> 'a \<times> bool list \<times> 'info) \<times> ('kw, 'a, 'r, 's) wrapper \<times> 'e store)" where
  "step_test lib num action s =
     (case s of (w, \<sigma>) \<Rightarrow>
      case deref (envs_test w) \<sigma> of
        Inl err \<Rightarrow> Inl err
      | Inr (h, e) \<Rightarrow>
         (case env_step lib action e of
            None \<Rightarrow> Inl CollaboratorError
          | Some ((obs, rews, dones, infos), e') \<Rightarrow>
             (case normalizer_call num False obs (state_normalizer w) of (obs_n, sn) \<Rightarrow>
              Inr ((obs_n, rews, dones, infos), (w\<lparr>state_normalizer := sn\<rparr>, \<sigma>[h := e'])))))"

text \<open>\<^verbatim>\<open>reset_test\<close> (lines 124-126).\<close>

definition reset_test ::
  "('kw, 'e, 'act, 'a, 'info, 'sp) vec_env \<Rightarrow> ('a, 'r, 's) numerics \<Rightarrow>
   ('kw, 'a, 'r, 's) wrapper \<times> 'e store \<Rightarrow>
   error + ('a \<times> ('kw, 'a, 'r, 's) wrapper \<times> 'e store)" where
  "reset_test lib num s =
     (case s of (w, \<sigma>) \<Rightarrow>
      case deref (envs_test w) \<sigma> of
        Inl err \<Rightarrow> Inl err
      | Inr (h, e) \<Rightarrow>
         (case env_reset lib e of
            None \<Rightarrow> Inl CollaboratorError
          | Some (obs, e') \<Rightarrow>
             (case normalizer_call num False obs (state_normalizer w) of (obs_n, sn) \<Rightarrow>
              Inr (obs_n, (w\<lparr>state_normalizer := sn\<rparr>, \<sigma>[h := e'])))))"

text \<open>
  \<^verbatim>\<open>reset\<close> (lines 128-134): both normalizers are reset before the environment set is;
  \<^verbatim>\<open>last_obs\<close> is not assigned.
\<close>

definition reset ::
  "('kw, 'e, 'act, 'a, 'info, 'sp) vec_env \<Rightarrow> ('a, 'r, 's) numerics \<Rightarrow>
   ('kw, 'a, 'r, 's) wrapper \<times> 'e store \<Rightarrow>
   error + ('a \<times> ('kw, 'a, 'r, 's) wrapper \<times> 'e store)" where
  "reset lib num s =
     (case s of (w, \<sigma>) \<Rightarrow>
      let w1 = w\<lparr>state_normalizer := normalizer_reset num None (state_normalizer w)\<rparr>;
          w2 = w1\<lparr>reward_normalizer := normalizer_reset num None (reward_normalizer w1)\<rparr>
      in case deref (envs w2) \<sigma> of
           Inl err \<Rightarrow> Inl err
         | Inr (h, e) \<Rightarrow>
            (case env_reset lib e of
               None \<Rightarrow> Inl CollaboratorError
             | Some (obs, e') \<Rightarrow>
                (case normalizer_call num True obs (state_normalizer w2) of (obs_n, sn) \<Rightarrow>
                 Inr (obs_n, (w2\<lparr>state_normalizer := sn\<rparr>, \<sigma>[h := e'])))))"

text \<open>\<^verbatim>\<open>render_test\<close> (lines 136-137): no return value.\<close>

definition render_test ::
  "('kw, 'e, 'act, 'a, 'info, 'sp) vec_env \<Rightarrow> string \<Rightarrow> (string \<times> 'kw) list \<Rightarrow>
   ('kw, 'a, 'r, 's) wrapper \<times> 'e store \<Rightarrow> error + (('kw, 'a, 'r, 's) wrapper \<times> 'e store)" where
  "render_test lib mode kwargs s =
     (case s of (w, \<sigma>) \<Rightarrow>
      case deref (envs_test w) \<sigma> of
        Inl err \<Rightarrow> Inl err
      | Inr (h, e) \<Rightarrow>
         (case env_render lib mode kwargs e of
            None \<Rightarrow> Inl CollaboratorError
          | Some e' \<Rightarrow> Inr (w, \<sigma>[h := e'])))"



subsection \<open>Runs, invariants and a sample instance\<close>

text \<open>
  A sequence of method calls on one wrapper, run in order; an exception ends the run.
  \<open>step\<close> and \<open>reset\<close> are the training-mode calls. For each of them the run records what
  the environment set handed over (the raw answer) and what the method returned.
\<close>

datatype 'act wrapper_call = Step_call 'act | Reset_call | Step_test_call 'act | Reset_test_call

fun is_training :: "'act wrapper_call \<Rightarrow> bool" where
  "is_training (Step_call a) = True"
| "is_training Reset_call = True"
| "is_training (Step_test_call a) = False"
| "is_training Reset_test_call = False"

datatype ('a, 'info) answer = Stepped "'a \<times> 'a \<times> bool list \<times> 'info" | Was_reset 'a

definition raw_step ::
  "('kw, 'e, 'act, 'a, 'info, 'sp) vec_env \<Rightarrow> 'act \<Rightarrow> ('kw, 'a, 'r, 's) wrapper \<times> 'e store \<Rightarrow>
   ('a, 'info) answer option" where
  "raw_step lib a s =
     (case s of (w, \<sigma>) \<Rightarrow>
      case deref (envs w) \<sigma> of
        Inl err \<Rightarrow> None
      | Inr (h, e) \<Rightarrow> map_option (Stepped \<circ> fst) (env_step lib a e))"

definition raw_reset ::
  "('kw, 'e, 'act, 'a, 'info, 'sp) vec_env \<Rightarrow> ('kw, 'a, 'r, 's) wrapper \<times> 'e store \<Rightarrow>
   ('a, 'info) answer option" where
  "raw_reset lib s =
     (case s of (w, \<sigma>) \<Rightarrow>
      case deref (envs w) \<sigma> of
        Inl err \<Rightarrow> None
      | Inr (h, e) \<Rightarrow> map_option (Was_reset \<circ> fst) (env_reset lib e))"

fun run_calls ::
  "('kw, 'e, 'act, 'a, 'info, 'sp) vec_env \<Rightarrow> ('a, 'r, 's) numerics \<Rightarrow> 'act wrapper_call list \<Rightarrow>
   ('kw, 'a, 'r, 's) wrapper \<times> 'e store \<Rightarrow>
   error + ((('a, 'info) answer option \<times> ('a, 'info) answer) list \<times>
            ('kw, 'a, 'r, 's) wrapper \<times> 'e store)" where
  "run_calls lib num [] s = Inr ([], s)"
| "run_calls lib num (Step_call a # cs) s =
     (case step lib num a s of
        Inl err \<Rightarrow> Inl err
      | Inr (r, s') \<Rightarrow>
         (case run_calls lib num cs s' of
            Inl err \<Rightarrow> Inl err
          | Inr (tr, s'') \<Rightarrow> Inr ((raw_step lib a s, Stepped r) # tr, s'')))"
| "run_calls lib num (Reset_call # cs) s =
     (case reset lib num s of
        Inl err \<Rightarrow> Inl err
      | Inr (r, s') \<Rightarrow>
         (case run_calls lib num cs s' of
            Inl err \<Rightarrow> Inl err
          | Inr (tr, s'') \<Rightarrow> Inr ((raw_reset lib s, Was_reset r) # tr, s'')))"
| "run_calls lib num (Step_test_call a # cs) s =
     (case step_test lib num a s of Inl err \<Rightarrow> Inl err | Inr (r, s') \<Rightarrow> run_calls lib num cs s')"
| "run_calls lib num (Reset_test_call # cs) s =
     (case reset_test lib num s of Inl err \<Rightarrow> Inl err | Inr (r, s') \<Rightarrow> run_calls lib num cs s')"

text \<open>
  A history of one normalizer object: calls \<^verbatim>\<open>normalizer(x, update=u)\<close> and resets. The run
  gives the result of every call, tagged with its \<open>update\<close> flag, and the normalizer at the
  end. \<open>samples\<close> are the inputs of the calls, tagged the same way; a call is an evaluation
  call when it is made with \<open>update = False\<close>.
\<close>

datatype 'a normalizer_op = Call bool 'a | Reset "bool list option"

fun normalizer_run ::
  "('a, 'r, 's) numerics \<Rightarrow> 'a normalizer_op list \<Rightarrow> ('r, 's) normalizer \<Rightarrow>
   (bool \<times> 'a) list \<times> ('r, 's) normalizer" where
  "normalizer_run num [] n = ([], n)"
| "normalizer_run num (Call u x # ops) n =
     (case normalizer_call num u x n of (y, n') \<Rightarrow>
      case normalizer_run num ops n' of (ys, n'') \<Rightarrow> ((u, y) # ys, n''))"
| "normalizer_run num (Reset dm # ops) n = normalizer_run num ops (normalizer_reset num dm n)"

fun is_evaluation :: "'a normalizer_op \<Rightarrow> bool" where
  "is_evaluation (Call u x) = (\<not> u)"
| "is_evaluation (Reset dm) = False"

fun samples :: "'a normalizer_op list \<Rightarrow> (bool \<times> 'a) list" where
  "samples [] = []"
| "samples (Call u x # ops) = (u, x) # samples ops"
| "samples (Reset dm # ops) = samples ops"

text \<open>
  The normalizers of the identity property: \<^verbatim>\<open>BaseNormalizer\<close>, and a normalizer configured
  with \<open>center = False\<close>, \<open>scale = False\<close>, \<open>clip = None\<close>.
\<close>

fun is_identity :: "('r, 's) normalizer \<Rightarrow> bool" where
  "is_identity BaseNormalizer = True"
| "is_identity (MovingAvgNormalizer p cfg st) = (\<not> center cfg \<and> \<not> scale cfg \<and> clip cfg = None)"

text \<open>
  The states of a constructed wrapper: the state a returning constructor call leaves, and
  every state a returning method call leads to from there. A call that raises leads
  nowhere.
\<close>

inductive reachable ::
  "('kw, 'e, 'act, 'a, 'info, 'sp) vec_env \<Rightarrow> ('a, 'r, 's) numerics \<Rightarrow>
   ('kw, 'a, 'r, 's) wrapper \<times> 'e store \<Rightarrow> bool"
  for lib :: "('kw, 'e, 'act, 'a, 'info, 'sp) vec_env" and num :: "('a, 'r, 's) numerics" where
  constructed: "wrapper_init lib num args \<sigma>0 = Inr s \<Longrightarrow> reachable lib num s"
| after_step: "reachable lib num s \<Longrightarrow> step lib num a s = Inr (r, s') \<Longrightarrow> reachable lib num s'"
| after_step_test: "reachable lib num s \<Longrightarrow> step_test lib num a s = Inr (r, s') \<Longrightarrow> reachable lib num s'"
| after_reset: "reachable lib num s \<Longrightarrow> reset lib num s = Inr (ob, s') \<Longrightarrow> reachable lib num s'"
| after_reset_test: "reachable lib num s \<Longrightarrow> reset_test lib num s = Inr (ob, s') \<Longrightarrow> reachable lib num s'"
| after_render_test: "reachable lib num s \<Longrightarrow> render_test lib mode kw s = Inr s' \<Longrightarrow> reachable lib num s'"

text \<open>
  What holds in all of them: both references are the one live reference the constructor
  allocated, and the state normalizer is the \<^verbatim>\<open>BaseNormalizer\<close> of line 84.
\<close>

definition wrapper_inv :: "('kw, 'a, 'r, 's) wrapper \<times> 'e store \<Rightarrow> bool" where
  "wrapper_inv s =
     (case s of (w, \<sigma>) \<Rightarrow>
        envs_test w = envs w \<and> (case envs w of None \<Rightarrow> False | Some h \<Rightarrow> h < length \<sigma>) \<and>
        state_normalizer w = BaseNormalizer)"

text \<open>
  A sample instance, to evaluate the model on: an environment set that counts its steps
  (two slots, the first done from the third step on) and that, as \<^verbatim>\<open>SubprocVecEnv\<close> does,
  raises when it is constructed over an empty list of constructors; numeric rules over
  integers, where a reset with a mask clears the count when a slot is done; and the wrapper
  that \<open>wrapper_init\<close> builds for \<open>n_envs = 2\<close> on the empty store.
\<close>

definition sample_env :: "(unit, nat, int, int list, string, nat) vec_env" where
  "sample_env =
     \<lparr>spawn = (\<lambda>fl. if fl = [] then None else Some (7 + length fl)),
      env_reset = (\<lambda>e. Some ([0, 0], 0)),
      env_step = (\<lambda>a e. Some (([int e + 1, a], [a, 2 * a], [2 \<le> e, False], ''info''), e + 1)),
      env_render = (\<lambda>m kw e. Some e),
      env_observation_space = (\<lambda>e. 10 + e),
      env_action_space = (\<lambda>e. 20 + e)\<rparr>"

definition sample_numerics :: "(int list, int, int \<times> int) numerics" where
  "sample_numerics =
     \<lparr>zero_state = (\<lambda>shp. (0, 0)),
      push = (\<lambda>g x (c, m). (c + 1, g * m + sum_list x)),
      sub_mean = (\<lambda>(c, m) x. map (\<lambda>v. v - m) x),
      div_std = (\<lambda>(c, m) x. map (\<lambda>v. v div (1 + c)) x),
      clamp = (\<lambda>b x. map (\<lambda>v. max (- b) (min b v)) x),
      reset_slots = (\<lambda>d (c, m). (if True \<in> set d then 0 else c, 0))\<rparr>"

definition sample_args :: "(unit, int) init_args" where
  "sample_args =
     \<lparr>arg_env_id = ''Env-v0'', arg_n_envs = 2, arg_n_test_envs = 1,
      arg_max_episode_length = 1000, arg_gamma = 1, arg_norm_obs = Some True,
      arg_clip_obs = None, arg_norm_rewards = Some True, arg_clip_rewards = Some 5,
      arg_seed = 1, arg_kwargs = []\<rparr>"

definition sample_reward_normalizer :: "int \<times> int \<Rightarrow> (int, int \<times> int) normalizer" where
  "sample_reward_normalizer st =
     MovingAvgNormalizer BaseNormalizer
       \<lparr>shape = [], center = False, scale = True, gamma = 1, clip = Some 5\<rparr> st"

definition sample_wrapper :: "(unit, int list, int, int \<times> int) wrapper" where
  "sample_wrapper =
     \<lparr>max_episode_length = 1000,
      env_fns = [\<lparr>fn_env_id = ''Env-v0'', fn_seed = 1, fn_max_episode_length = 1000,
                  fn_normalize_obs = Some True, fn_kwargs = []\<rparr>,
                 \<lparr>fn_env_id = ''Env-v0'', fn_seed = 2, fn_max_episode_length = 1000,
                  fn_normalize_obs = Some True, fn_kwargs = []\<rparr>],
      envs = Some 0, envs_test = Some 0, norm_obs = Some True, clip_obs = None,
      norm_rewards = Some True, clip_rewards = Some 5,
      state_normalizer = BaseNormalizer,
      reward_normalizer = sample_reward_normalizer (0, 0),
      last_obs = Some [0, 0]\<rparr>"

section \<open>Auxiliary facts\<close>

lemmas sample_defs =
  sample_env_def sample_numerics_def sample_args_def sample_reward_normalizer_def
  sample_wrapper_def

lemma sample_init:
  "wrapper_init sample_env sample_numerics sample_args [] = Inr (sample_wrapper, [0])"
  by (simp add: wrapper_init_def func_list_def make_reward_normalizer_def partial_keywords_def
      sample_defs upto_rec1)

lemma sample_init_no_norm_obs:
  "wrapper_init sample_env sample_numerics (sample_args\<lparr>arg_norm_obs := Some False\<rparr>) [] =
     Inr (sample_wrapper\<lparr>norm_obs := Some False,
            env_fns := map (\<lambda>f. f\<lparr>fn_normalize_obs := Some False\<rparr>) (env_fns sample_wrapper)\<rparr>, [0])"
  by (simp add: wrapper_init_def func_list_def make_reward_normalizer_def partial_keywords_def
      sample_defs upto_rec1)

lemma normalizer_call_no_update: "snd (normalizer_call num False x n) = n"
  by (cases n) simp_all

lemma step_returns:
  assumes "envs w = Some h" and "h < length \<sigma>"
    and "env_step lib actions (\<sigma> ! h) = Some ((obs, rews, dones, infos), e')"
  shows "step lib num actions (w, \<sigma>) =
    Inr ((fst (normalizer_call num True obs (state_normalizer w)),
          fst (normalizer_call num True rews (reward_normalizer w)), dones, infos),
         (w\<lparr>state_normalizer :=
               normalizer_reset num (Some dones) (snd (normalizer_call num True obs (state_normalizer w))),
             reward_normalizer :=
               normalizer_reset num (Some dones) (snd (normalizer_call num True rews (reward_normalizer w))),
             last_obs := Some (fst (normalizer_call num True obs (state_normalizer w)))\<rparr>,
          \<sigma>[h := e']))"
  using assms by (simp add: step_def deref_def split: prod.splits)

lemma reset_returns:
  assumes "envs w = Some h" and "h < length \<sigma>"
    and "env_reset lib (\<sigma> ! h) = Some (obs, e')"
  shows "reset lib num (w, \<sigma>) =
    Inr (fst (normalizer_call num True obs (normalizer_reset num None (state_normalizer w))),
         (w\<lparr>state_normalizer :=
               snd (normalizer_call num True obs (normalizer_reset num None (state_normalizer w))),
             reward_normalizer := normalizer_reset num None (reward_normalizer w)\<rparr>,
          \<sigma>[h := e']))"
  using assms by (simp add: reset_def deref_def split: prod.splits)

lemma step_test_wrapper: "step_test lib num a (w, \<sigma>) = Inr (r, (w', \<sigma>')) \<Longrightarrow> w' = w"
  by (auto simp: step_test_def normalizer_call_no_update
      split: sum.splits option.splits prod.splits dest: arg_cong [where f = snd])

lemma reset_test_wrapper: "reset_test lib num (w, \<sigma>) = Inr (r, (w', \<sigma>')) \<Longrightarrow> w' = w"
  by (auto simp: reset_test_def normalizer_call_no_update
      split: sum.splits option.splits prod.splits dest: arg_cong [where f = snd])

lemma normalizer_run_erase:
  "normalizer_run num (filter (\<lambda>c. \<not> is_evaluation c) ops) n =
     (filter fst (fst (normalizer_run num ops n)), snd (normalizer_run num ops n))"
proof (induction ops arbitrary: n)
  case Nil
  then show ?case by simp
next
  case (Cons c ops)
  show ?case
  proof (cases c)
    case (Call u x)
    show ?thesis
    proof (cases u)
      case True
      with Call Cons.IH show ?thesis by (simp add: case_prod_beta)
    next
      case False
      with Call Cons.IH [of n] show ?thesis
        by (simp add: case_prod_beta normalizer_call_no_update)
    qed
  next
    case (Reset dm)
    with Cons.IH show ?thesis by simp
  qed
qed

lemma is_identity_call:
  "is_identity n \<Longrightarrow> fst (normalizer_call num u x n) = x \<and> is_identity (snd (normalizer_call num u x n))"
  by (cases n) (simp_all add: transform_def Let_def)

lemma is_identity_reset: "is_identity n \<Longrightarrow> is_identity (normalizer_reset num dm n)"
  by (cases n; cases dm) simp_all

lemma Base_run: "snd (normalizer_run num ops BaseNormalizer) = BaseNormalizer"
proof (induction ops)
  case Nil
  then show ?case by simp
next
  case (Cons c ops)
  then show ?case by (cases c) (simp_all add: case_prod_beta)
qed

lemma init_inv: "wrapper_init lib num args \<sigma>0 = Inr s \<Longrightarrow> wrapper_inv s"
  by (auto simp: wrapper_init_def wrapper_inv_def Let_def
      split: sum.splits option.splits if_splits)

lemma step_inv: "wrapper_inv s \<Longrightarrow> step lib num a s = Inr (r, s') \<Longrightarrow> wrapper_inv s'"
  by (auto simp: step_def wrapper_inv_def deref_def Let_def
      split: sum.splits option.splits if_splits prod.splits)

lemma step_test_inv: "wrapper_inv s \<Longrightarrow> step_test lib num a s = Inr (r, s') \<Longrightarrow> wrapper_inv s'"
  by (auto simp: step_test_def wrapper_inv_def deref_def
      split: sum.splits option.splits if_splits prod.splits)

lemma reset_inv: "wrapper_inv s \<Longrightarrow> reset lib num s = Inr (r, s') \<Longrightarrow> wrapper_inv s'"
  by (auto simp: reset_def wrapper_inv_def deref_def Let_def
      split: sum.splits option.splits if_splits prod.splits)

lemma reset_test_inv: "wrapper_inv s \<Longrightarrow> reset_test lib num s = Inr (r, s') \<Longrightarrow> wrapper_inv s'"
  by (auto simp: reset_test_def wrapper_inv_def deref_def
      split: sum.splits option.splits if_splits prod.splits)

lemma render_test_inv: "wrapper_inv s \<Longrightarrow> render_test lib mode kw s = Inr s' \<Longrightarrow> wrapper_inv s'"
  by (auto simp: render_test_def wrapper_inv_def deref_def
      split: sum.splits option.splits if_splits prod.splits)

lemma reachable_inv: "reachable lib num s \<Longrightarrow> wrapper_inv s"
proof (induction rule: reachable.induct)
  case (constructed args \<sigma>0 s)
  then show ?case by (rule init_inv)
next
  case (after_step s a r s')
  then show ?case by (blast intro: step_inv)
next
  case (after_step_test s a r s')
  then show ?case by (blast intro: step_test_inv)
next
  case (after_reset s ob s')
  then show ?case by (blast intro: reset_inv)
next
  case (after_reset_test s ob s')
  then show ?case by (blast intro: reset_test_inv)
next
  case (after_render_test s mode kw s')
  then show ?case by (blast intro: render_test_inv)
qed

lemma wrapper_invD:
  "wrapper_inv (w, \<sigma>) \<Longrightarrow>
     envs_test w = envs w \<and> (\<exists>h. envs w = Some h \<and> h < length \<sigma>) \<and> state_normalizer w = BaseNormalizer"
  by (auto simp: wrapper_inv_def split: option.splits)

lemma sample_reachable: "reachable sample_env sample_numerics (sample_wrapper, [0])"
  by (rule reachable.constructed [OF sample_init])



lemma step_test_Base:
  assumes "envs_test w = Some h" "h < length \<sigma>" "state_normalizer w = BaseNormalizer"
    and "env_step lib a (\<sigma> ! h) = Some ((obs, rews, dones, infos), e')"
  shows "step_test lib num a (w, \<sigma>) = Inr ((obs, rews, dones, infos), (w, \<sigma>[h := e']))"
  using assms by (simp add: step_test_def deref_def)

lemma reset_test_Base:
  assumes "envs_test w = Some h" "h < length \<sigma>" "state_normalizer w = BaseNormalizer"
    and "env_reset lib (\<sigma> ! h) = Some (obs, e')"
  shows "reset_test lib num (w, \<sigma>) = Inr (obs, (w, \<sigma>[h := e']))"
  using assms by (simp add: reset_test_def deref_def)

lemma step_Base:
  assumes "envs w = Some h" "h < length \<sigma>" "state_normalizer w = BaseNormalizer"
    and "env_step lib a (\<sigma> ! h) = Some ((obs, rews, dones, infos), e')"
  shows "step lib num a (w, \<sigma>) =
    Inr ((obs, fst (normalizer_call num True rews (reward_normalizer w)), dones, infos),
         (w\<lparr>reward_normalizer :=
               normalizer_reset num (Some dones) (snd (normalizer_call num True rews (reward_normalizer w))),
             last_obs := Some obs\<rparr>, \<sigma>[h := e']))"
  using assms by (simp add: step_def deref_def case_prod_beta)

lemma reset_Base:
  assumes "envs w = Some h" "h < length \<sigma>" "state_normalizer w = BaseNormalizer"
    and "env_reset lib (\<sigma> ! h) = Some (obs, e')"
  shows "reset lib num (w, \<sigma>) =
    Inr (obs, (w\<lparr>reward_normalizer := normalizer_reset num None (reward_normalizer w)\<rparr>, \<sigma>[h := e']))"
  using assms by (simp add: reset_def deref_def)

lemma init_state_normalizer:
  "wrapper_init lib num args \<sigma>0 = Inr (w, \<sigma>) \<Longrightarrow>
     state_normalizer w = BaseNormalizer \<and> norm_obs w = arg_norm_obs args \<and>
     list_all (\<lambda>f. fn_normalize_obs f = arg_norm_obs args) (env_fns w)"
  by (auto simp: wrapper_init_def func_list_def Let_def list_all_iff
      split: sum.splits option.splits if_splits)

lemma func_list_norm_obs:
  "func_list (args\<lparr>arg_norm_obs := b\<rparr>) =
     map_sum id (map (\<lambda>f. f\<lparr>fn_normalize_obs := b\<rparr>)) (func_list args)"
  by (simp add: func_list_def)

lemma init_norm_obs_only:
  assumes "wrapper_init lib num args \<sigma>0 = Inr (w, \<sigma>)"
    and "wrapper_init lib num (args\<lparr>arg_norm_obs := b\<rparr>) \<sigma>0 = Inr (w2, \<sigma>2)"
  shows "w2\<lparr>norm_obs := norm_obs w, env_fns := env_fns w, last_obs := last_obs w\<rparr> = w \<and>
         env_fns w2 = map (\<lambda>f. f\<lparr>fn_normalize_obs := b\<rparr>) (env_fns w)"
  using assms
  by (auto simp: wrapper_init_def func_list_norm_obs make_reward_normalizer_def Let_def
      split: sum.splits option.splits if_splits)

lemma step_by_raw:
  assumes "step lib num a (w, \<sigma>) = Inr (r, (w', \<sigma>'))"
  shows "\<exists>obs rews dones infos.
           raw_step lib a (w, \<sigma>) = Some (Stepped (obs, rews, dones, infos)) \<and>
           r = (fst (normalizer_call num True obs (state_normalizer w)),
                fst (normalizer_call num True rews (reward_normalizer w)), dones, infos) \<and>
           w' = w\<lparr>state_normalizer :=
                     normalizer_reset num (Some dones) (snd (normalizer_call num True obs (state_normalizer w))),
                   reward_normalizer :=
                     normalizer_reset num (Some dones) (snd (normalizer_call num True rews (reward_normalizer w))),
                   last_obs := Some (fst (normalizer_call num True obs (state_normalizer w)))\<rparr>"
proof -
  from assms obtain h where h: "envs w = Some h" "h < length \<sigma>"
    by (auto simp: step_def deref_def split: option.splits if_splits)
  from assms h obtain obs rews dones infos e' where
    e: "env_step lib a (\<sigma> ! h) = Some ((obs, rews, dones, infos), e')"
    by (auto simp: step_def deref_def split: option.splits)
  from step_returns [OF h e, of num] assms e h show ?thesis
    by (simp add: raw_step_def deref_def)
qed

lemma reset_by_raw:
  assumes "reset lib num (w, \<sigma>) = Inr (r, (w', \<sigma>'))"
  shows "\<exists>obs.
           raw_reset lib (w, \<sigma>) = Some (Was_reset obs) \<and>
           r = fst (normalizer_call num True obs (normalizer_reset num None (state_normalizer w))) \<and>
           w' = w\<lparr>state_normalizer :=
                     snd (normalizer_call num True obs (normalizer_reset num None (state_normalizer w))),
                   reward_normalizer := normalizer_reset num None (reward_normalizer w)\<rparr>"
proof -
  from assms obtain h where h: "envs w = Some h" "h < length \<sigma>"
    by (auto simp: reset_def deref_def Let_def split: option.splits if_splits)
  from assms h obtain obs e' where e: "env_reset lib (\<sigma> ! h) = Some (obs, e')"
    by (auto simp: reset_def deref_def Let_def split: option.splits)
  from reset_returns [OF h e, of num] assms e h show ?thesis
    by (simp add: raw_reset_def deref_def)
qed

lemma step_two_stores:
  assumes "step lib num a (w, \<sigma>) = Inr (r1, (w1, \<sigma>1))"
    and "step lib num a (w, \<sigma>') = Inr (r2, (w2, \<sigma>2))"
    and "raw_step lib a (w, \<sigma>) = raw_step lib a (w, \<sigma>')"
  shows "r1 = r2 \<and> w1 = w2"
  using step_by_raw [OF assms(1)] step_by_raw [OF assms(2)] assms(3) by auto

lemma reset_two_stores:
  assumes "reset lib num (w, \<sigma>) = Inr (r1, (w1, \<sigma>1))"
    and "reset lib num (w, \<sigma>') = Inr (r2, (w2, \<sigma>2))"
    and "raw_reset lib (w, \<sigma>) = raw_reset lib (w, \<sigma>')"
  shows "r1 = r2 \<and> w1 = w2"
  using reset_by_raw [OF assms(1)] reset_by_raw [OF assms(2)] assms(3) by auto

lemma run_calls_length:
  "run_calls lib num cs s = Inr (tr, s') \<Longrightarrow> length tr = length (filter is_training cs)"
proof (induction cs arbitrary: s tr)
  case Nil
  then show ?case by simp
next
  case (Cons c cs)
  show ?case
  proof (cases c)
    case (Step_call a)
    with Cons.prems obtain r s1 tr' where
      "run_calls lib num cs s1 = Inr (tr', s')" and "tr = (raw_step lib a s, Stepped r) # tr'"
      by (auto split: sum.splits)
    with Cons.IH Step_call show ?thesis by auto
  next
    case Reset_call
    with Cons.prems obtain r s1 tr' where
      "run_calls lib num cs s1 = Inr (tr', s')" and "tr = (raw_reset lib s, Was_reset r) # tr'"
      by (auto split: sum.splits)
    with Cons.IH Reset_call show ?thesis by auto
  next
    case (Step_test_call a)
    with Cons.prems obtain r s1 where "run_calls lib num cs s1 = Inr (tr, s')"
      by (auto split: sum.splits)
    with Cons.IH Step_test_call show ?thesis by auto
  next
    case Reset_test_call
    with Cons.prems obtain r s1 where "run_calls lib num cs s1 = Inr (tr, s')"
      by (auto split: sum.splits)
    with Cons.IH Reset_test_call show ?thesis by auto
  qed
qed

lemma two_runs:
  "run_calls lib num cs (w, \<sigma>) = Inr (tr1, (w1, \<sigma>1)) \<Longrightarrow>
   run_calls lib num (filter is_training cs) (w, \<sigma>') = Inr (tr2, (w2, \<sigma>2)) \<Longrightarrow>
   map fst tr1 = map fst tr2 \<Longrightarrow>
   map snd tr1 = map snd tr2 \<and> w1 = w2"
proof (induction cs arbitrary: w \<sigma> \<sigma>' tr1 tr2)
  case Nil
  then show ?case by simp
next
  case (Cons c cs)
  show ?case
  proof (cases c)
    case (Step_call a)
    from Cons.prems(1) Step_call obtain ra wa \<sigma>a ta where
      a: "step lib num a (w, \<sigma>) = Inr (ra, (wa, \<sigma>a))"
      and ar: "run_calls lib num cs (wa, \<sigma>a) = Inr (ta, (w1, \<sigma>1))"
      and at: "tr1 = (raw_step lib a (w, \<sigma>), Stepped ra) # ta"
      by (auto split: sum.splits)
    from Cons.prems(2) Step_call obtain rb wb \<sigma>b tb where
      b: "step lib num a (w, \<sigma>') = Inr (rb, (wb, \<sigma>b))"
      and br: "run_calls lib num (filter is_training cs) (wb, \<sigma>b) = Inr (tb, (w2, \<sigma>2))"
      and bt: "tr2 = (raw_step lib a (w, \<sigma>'), Stepped rb) # tb"
      by (auto split: sum.splits)
    from Cons.prems(3) at bt have raw: "raw_step lib a (w, \<sigma>) = raw_step lib a (w, \<sigma>')"
      and rest: "map fst ta = map fst tb" by simp_all
    from step_two_stores [OF a b raw] have same: "ra = rb" "wa = wb" by simp_all
    from Cons.IH [OF ar br [folded same(2)] rest] same at bt show ?thesis by simp
  next
    case Reset_call
    from Cons.prems(1) Reset_call obtain ra wa \<sigma>a ta where
      a: "reset lib num (w, \<sigma>) = Inr (ra, (wa, \<sigma>a))"
      and ar: "run_calls lib num cs (wa, \<sigma>a) = Inr (ta, (w1, \<sigma>1))"
      and at: "tr1 = (raw_reset lib (w, \<sigma>), Was_reset ra) # ta"
      by (auto split: sum.splits)
    from Cons.prems(2) Reset_call obtain rb wb \<sigma>b tb where
      b: "reset lib num (w, \<sigma>') = Inr (rb, (wb, \<sigma>b))"
      and br: "run_calls lib num (filter is_training cs) (wb, \<sigma>b) = Inr (tb, (w2, \<sigma>2))"
      and bt: "tr2 = (raw_reset lib (w, \<sigma>'), Was_reset rb) # tb"
      by (auto split: sum.splits)
    from Cons.prems(3) at bt have raw: "raw_reset lib (w, \<sigma>) = raw_reset lib (w, \<sigma>')"
      and rest: "map fst ta = map fst tb" by simp_all
    from reset_two_stores [OF a b raw] have same: "ra = rb" "wa = wb" by simp_all
    from Cons.IH [OF ar br [folded same(2)] rest] same at bt show ?thesis by simp
  next
    case (Step_test_call a)
    from Cons.prems(1) Step_test_call obtain ra wa \<sigma>a where
      a: "step_test lib num a (w, \<sigma>) = Inr (ra, (wa, \<sigma>a))"
      and ar: "run_calls lib num cs (wa, \<sigma>a) = Inr (tr1, (w1, \<sigma>1))"
      by (auto split: sum.splits)
    from step_test_wrapper [OF a] have "wa = w" .
    with ar Cons.prems(2,3) Step_test_call Cons.IH [of w \<sigma>a tr1 \<sigma>' tr2] show ?thesis by simp
  next
    case Reset_test_call
    from Cons.prems(1) Reset_test_call obtain ra wa \<sigma>a where
      a: "reset_test lib num (w, \<sigma>) = Inr (ra, (wa, \<sigma>a))"
      and ar: "run_calls lib num cs (wa, \<sigma>a) = Inr (tr1, (w1, \<sigma>1))"
      by (auto split: sum.splits)
    from reset_test_wrapper [OF a] have "wa = w" .
    with ar Cons.prems(2,3) Reset_test_call Cons.IH [of w \<sigma>a tr1 \<sigma>' tr2] show ?thesis by simp
  qed
qed

section \<open>Properties\<close>

text \<open>
  C1. When the environment set answers \<open>step(actions)\<close> with raw
  \<open>(obs, rews, dones, infos)\<close>, \<open>step\<close> returns the observations and the rewards as the
  state normalizer and the reward normalizer give them with \<open>update = True\<close>, and
  \<open>dones\<close> and \<open>infos\<close> as received. Afterwards each normalizer is the one left by its call,
  reset with the \<open>dones\<close> mask; the environment set in the store is the stepped one.
\<close>

theorem step_normalizes_then_resets:
  assumes "envs w = Some h" and "h < length \<sigma>"
    and "env_step lib actions (\<sigma> ! h) = Some ((obs, rews, dones, infos), e')"
  shows "step lib num actions (w, \<sigma>) =
    Inr ((fst (normalizer_call num True obs (state_normalizer w)),
          fst (normalizer_call num True rews (reward_normalizer w)), dones, infos),
         (w\<lparr>state_normalizer :=
               normalizer_reset num (Some dones) (snd (normalizer_call num True obs (state_normalizer w))),
             reward_normalizer :=
               normalizer_reset num (Some dones) (snd (normalizer_call num True rews (reward_normalizer w))),
             last_obs := Some (fst (normalizer_call num True obs (state_normalizer w)))\<rparr>,
          \<sigma>[h := e']))"
  using assms by (simp add: step_def deref_def split: prod.splits)

theorem step_normalizes_then_resets_witness:
  "step sample_env sample_numerics 6 (sample_wrapper, [0]) =
     Inr (([1, 6], [3, 5], [False, False], ''info''),
          (sample_wrapper\<lparr>reward_normalizer := sample_reward_normalizer (1, 0),
                          last_obs := Some [1, 6]\<rparr>, [1]))"
  using step_normalizes_then_resets [of sample_wrapper 0 "[0]" sample_env 6 "[1, 6]" "[6, 12]"
      "[False, False]" "''info''" 1 sample_numerics]
  by (simp add: sample_defs transform_def)

text \<open>
  C2. \<open>step_test(action)\<close> steps the environment set behind \<open>envs_test\<close>, returns the
  observations as the state normalizer gives them with \<open>update = False\<close>, and returns the
  rewards, \<open>dones\<close> and \<open>infos\<close> exactly as the environment set produced them; the reward
  normalizer is neither called nor changed.
\<close>

theorem step_test_raw_rewards:
  assumes "envs_test w = Some h" and "h < length \<sigma>"
    and "env_step lib action (\<sigma> ! h) = Some ((obs, rews, dones, infos), e')"
  shows "step_test lib num action (w, \<sigma>) =
    Inr ((fst (normalizer_call num False obs (state_normalizer w)), rews, dones, infos),
         (w\<lparr>state_normalizer := snd (normalizer_call num False obs (state_normalizer w))\<rparr>,
          \<sigma>[h := e']))"
  using assms by (simp add: step_test_def deref_def split: prod.splits)

theorem step_test_raw_rewards_witness:
  "step_test sample_env sample_numerics 6 (sample_wrapper, [0]) =
     Inr (([1, 6], [6, 12], [False, False], ''info''), (sample_wrapper, [1]))"
  using step_test_raw_rewards [of sample_wrapper 0 "[0]" sample_env 6 "[1, 6]" "[6, 12]"
      "[False, False]" "''info''" 1 sample_numerics]
  by (simp add: sample_defs)

text \<open>
  C3. \<open>reset()\<close> resets both normalizers without a mask, resets the environment set
  behind \<open>envs\<close>, and returns the initial observations passed through the (freshly reset)
  state normalizer with \<open>update = True\<close>.
\<close>

theorem reset_full:
  assumes "envs w = Some h" and "h < length \<sigma>"
    and "env_reset lib (\<sigma> ! h) = Some (obs, e')"
  shows "reset lib num (w, \<sigma>) =
    Inr (fst (normalizer_call num True obs (normalizer_reset num None (state_normalizer w))),
         (w\<lparr>state_normalizer :=
               snd (normalizer_call num True obs (normalizer_reset num None (state_normalizer w))),
             reward_normalizer := normalizer_reset num None (reward_normalizer w)\<rparr>,
          \<sigma>[h := e']))"
  using assms by (simp add: reset_def deref_def split: prod.splits)

theorem reset_full_witness:
  "reset sample_env sample_numerics
     (sample_wrapper\<lparr>reward_normalizer := sample_reward_normalizer (4, 9)\<rparr>, [3]) =
     Inr ([0, 0], (sample_wrapper, [0]))"
  using reset_full [of "sample_wrapper\<lparr>reward_normalizer := sample_reward_normalizer (4, 9)\<rparr>"
      0 "[3]" sample_env "[0, 0]" 0 sample_numerics]
  by (simp add: sample_defs)

text \<open>
  C4 as stated fails: on the sample instance, two \<open>step_test\<close> calls inserted after the
  first of three \<open>step\<close> calls change what the later \<open>step\<close> calls return. The evaluation
  calls advance the environment set that training uses (line 74), so the third training
  call receives other observations, and the second another \<open>dones\<close> mask, with which the
  reward normalizer is reset: the same raw rewards \<open>[6, 12]\<close> come back as \<open>[3, 5]\<close> instead
  of \<open>[1, 3]\<close>.
\<close>

theorem evaluation_calls_change_training_results:
  "run_calls sample_env sample_numerics
     [Step_call 6, Step_test_call 6, Step_test_call 6, Step_call 6, Step_call 6] (sample_wrapper, [0]) =
   Inr ([(Some (Stepped ([1, 6], [6, 12], [False, False], ''info'')),
          Stepped ([1, 6], [3, 5], [False, False], ''info'')),
         (Some (Stepped ([4, 6], [6, 12], [True, False], ''info'')),
          Stepped ([4, 6], [2, 4], [True, False], ''info'')),
         (Some (Stepped ([5, 6], [6, 12], [True, False], ''info'')),
          Stepped ([5, 6], [3, 5], [True, False], ''info''))],
        (sample_wrapper\<lparr>last_obs := Some [5, 6]\<rparr>, [5])) \<and>
   run_calls sample_env sample_numerics
     (filter is_training [Step_call 6, Step_test_call 6, Step_test_call 6, Step_call 6, Step_call 6])
     (sample_wrapper, [0]) =
   Inr ([(Some (Stepped ([1, 6], [6, 12], [False, False], ''info'')),
          Stepped ([1, 6], [3, 5], [False, False], ''info'')),
         (Some (Stepped ([2, 6], [6, 12], [False, False], ''info'')),
          Stepped ([2, 6], [2, 4], [False, False], ''info'')),
         (Some (Stepped ([3, 6], [6, 12], [True, False], ''info'')),
          Stepped ([3, 6], [1, 3], [True, False], ''info''))],
        (sample_wrapper\<lparr>last_obs := Some [3, 6]\<rparr>, [3]))"
  by (simp add: step_def step_test_def raw_step_def deref_def transform_def sample_defs)

text \<open>
  C4 (as amended). Evaluation isolation. Take any sequence of calls and the same sequence
  without its \<open>step_test\<close> and \<open>reset_test\<close> calls, both run from the same state and both
  returning. Evaluation calls alone leave both normalizers as they were. If the environment
  set hands the training calls the same raw answers in both runs, then the training calls
  return the same results in both runs, and both runs end with the same normalizers.
\<close>

theorem evaluation_isolation:
  assumes "run_calls lib num cs (w, \<sigma>) = Inr (tr1, (w1, \<sigma>1))"
    and "run_calls lib num (filter is_training cs) (w, \<sigma>) = Inr (tr2, (w2, \<sigma>2))"
  shows "(filter is_training cs = [] \<longrightarrow>
            state_normalizer w1 = state_normalizer w \<and> reward_normalizer w1 = reward_normalizer w) \<and>
         (map fst tr1 = map fst tr2 \<longrightarrow>
            map snd tr1 = map snd tr2 \<and>
            state_normalizer w1 = state_normalizer w2 \<and> reward_normalizer w1 = reward_normalizer w2)"
proof (intro conjI impI)
  assume none: "filter is_training cs = []"
  with assms(2) have 2: "tr2 = []" "w2 = w" by simp_all
  from run_calls_length [OF assms(1)] none have "tr1 = []" by simp
  with two_runs [OF assms(1) assms(2)] 2 have "w1 = w" by simp
  then show "state_normalizer w1 = state_normalizer w" and "reward_normalizer w1 = reward_normalizer w"
    by simp_all
next
  assume "map fst tr1 = map fst tr2"
  from two_runs [OF assms(1) assms(2) this]
  show "map snd tr1 = map snd tr2" and "state_normalizer w1 = state_normalizer w2"
    and "reward_normalizer w1 = reward_normalizer w2" by simp_all
qed

theorem evaluation_isolation_witness:
  "run_calls sample_env sample_numerics
     [Step_call 6, Step_test_call 6, Reset_test_call, Reset_call, Step_call 6] (sample_wrapper, [0]) =
   Inr ([(Some (Stepped ([1, 6], [6, 12], [False, False], ''info'')),
          Stepped ([1, 6], [3, 5], [False, False], ''info'')),
         (Some (Was_reset [0, 0]), Was_reset [0, 0]),
         (Some (Stepped ([1, 6], [6, 12], [False, False], ''info'')),
          Stepped ([1, 6], [3, 5], [False, False], ''info''))],
        (sample_wrapper\<lparr>reward_normalizer := sample_reward_normalizer (1, 0),
                        last_obs := Some [1, 6]\<rparr>, [1])) \<and>
   run_calls sample_env sample_numerics [Step_call 6, Reset_call, Step_call 6] (sample_wrapper, [0]) =
   Inr ([(Some (Stepped ([1, 6], [6, 12], [False, False], ''info'')),
          Stepped ([1, 6], [3, 5], [False, False], ''info'')),
         (Some (Was_reset [0, 0]), Was_reset [0, 0]),
         (Some (Stepped ([1, 6], [6, 12], [False, False], ''info'')),
          Stepped ([1, 6], [3, 5], [False, False], ''info''))],
        (sample_wrapper\<lparr>reward_normalizer := sample_reward_normalizer (1, 0),
                        last_obs := Some [1, 6]\<rparr>, [1])) \<and>
   run_calls sample_env sample_numerics [Step_test_call 6, Reset_test_call, Step_test_call 2]
     (sample_wrapper\<lparr>reward_normalizer := sample_reward_normalizer (4, 9)\<rparr>, [3]) =
   Inr ([], (sample_wrapper\<lparr>reward_normalizer := sample_reward_normalizer (4, 9)\<rparr>, [1]))"
proof -
  let ?t = "[(Some (Stepped ([1, 6], [6, 12], [False, False], ''info'')),
          Stepped ([1::int, 6], [3::int, 5], [False, False], ''info'')),
         (Some (Was_reset [0, 0]), Was_reset [0, 0]),
         (Some (Stepped ([1, 6], [6, 12], [False, False], ''info'')),
          Stepped ([1, 6], [3, 5], [False, False], ''info''))]"
  let ?w = "sample_wrapper\<lparr>reward_normalizer := sample_reward_normalizer (1, 0),
                        last_obs := Some [1, 6]\<rparr>"
  let ?v = "sample_wrapper\<lparr>reward_normalizer := sample_reward_normalizer (4, 9)\<rparr>"
  have a: "run_calls sample_env sample_numerics
     [Step_call 6, Step_test_call 6, Reset_test_call, Reset_call, Step_call 6] (sample_wrapper, [0]) =
     Inr (?t, (?w, [1]))"
    by (simp add: step_def step_test_def reset_def reset_test_def raw_step_def raw_reset_def
        deref_def transform_def sample_defs)
  have b: "run_calls sample_env sample_numerics
     (filter is_training [Step_call 6, Step_test_call 6, Reset_test_call, Reset_call, Step_call 6])
     (sample_wrapper, [0]) = Inr (?t, (?w, [1]))"
    by (simp add: step_def reset_def raw_step_def raw_reset_def deref_def transform_def sample_defs)
  have c: "run_calls sample_env sample_numerics [Step_test_call 6, Reset_test_call, Step_test_call 2]
     (?v, [3]) = Inr ([], (?v, [1]))"
    by (simp add: step_test_def reset_test_def deref_def sample_defs)
  have d: "run_calls sample_env sample_numerics
     (filter is_training [Step_test_call 6, Reset_test_call, Step_test_call 2]) (?v, [3]) =
     Inr ([], (?v, [3]))"
    by simp
  from evaluation_isolation [OF a b] evaluation_isolation [OF c d] a b c show ?thesis by simp
qed

text \<open>
  C5. \<open>reset_test()\<close> resets the environment set behind \<open>envs_test\<close> and nothing else in
  the store, and returns its initial observations as the state normalizer gives them with
  \<open>update = False\<close>. The wrapper object, with both normalizers and their statistics, is
  unchanged: no normalizer is reset.
\<close>

theorem reset_test_frame:
  assumes "envs_test w = Some h" and "h < length \<sigma>"
    and "env_reset lib (\<sigma> ! h) = Some (obs, e')"
  shows "reset_test lib num (w, \<sigma>) =
    Inr (fst (normalizer_call num False obs (state_normalizer w)), (w, \<sigma>[h := e']))"
  using assms by (simp add: reset_test_def deref_def case_prod_beta normalizer_call_no_update)

theorem reset_test_frame_witness:
  "reset_test sample_env sample_numerics
     (sample_wrapper\<lparr>reward_normalizer := sample_reward_normalizer (4, 9)\<rparr>, [5, 3]) =
   Inr ([0, 0], (sample_wrapper\<lparr>reward_normalizer := sample_reward_normalizer (4, 9)\<rparr>, [0, 3]))"
  using reset_test_frame [of "sample_wrapper\<lparr>reward_normalizer := sample_reward_normalizer (4, 9)\<rparr>"
      0 "[5, 3]" sample_env "[0, 0]" 0 sample_numerics]
  by (simp add: sample_defs)





text \<open>
  C7. The constructor guards its initial reset with \<^verbatim>\<open>if n_envs\<close> (line 100), but
  constructs the environment set before that, without a guard (line 73). With a library
  that raises over an empty list of constructors, as \<^verbatim>\<open>SubprocVecEnv\<close> does, a constructor
  call with \<open>n_envs \<le> 0\<close> raises at line 73: it returns no instance, with or without
  \<open>last_obs\<close>.
\<close>

theorem init_without_envs_raises:
  assumes "arg_n_envs args \<le> 0" and "spawn lib [] = None"
  shows "wrapper_init lib num args \<sigma>0 = Inl CollaboratorError"
  using assms by (simp add: wrapper_init_def func_list_def)

theorem init_without_envs_raises_witness:
  "arg_n_envs (sample_args\<lparr>arg_n_envs := 0\<rparr>) \<le> 0 \<and> spawn sample_env [] = None \<and>
   wrapper_init sample_env sample_numerics (sample_args\<lparr>arg_n_envs := 0\<rparr>) [3] =
     Inl CollaboratorError"
  using init_without_envs_raises [of "sample_args\<lparr>arg_n_envs := 0\<rparr>" sample_env sample_numerics "[3]"]
  by (simp add: sample_defs)

text \<open>
  C8. Identity property. A normalizer with \<open>center = False\<close>, \<open>scale = False\<close> and
  \<open>clip = None\<close>, or the \<^verbatim>\<open>BaseNormalizer\<close> that the wrapper uses as its state normalizer,
  returns every sample unchanged, in any history of calls (with or without update) and
  resets: nothing its statistics hold is ever observable in a result. \<^verbatim>\<open>BaseNormalizer\<close>
  holds no statistics, and calls and resets leave it as it is.
\<close>

theorem identity_normalizer:
  assumes "is_identity n"
  shows "fst (normalizer_run num ops n) = samples ops \<and> is_identity (snd (normalizer_run num ops n)) \<and>
         normalizer_call num u x BaseNormalizer = (x, BaseNormalizer) \<and>
         normalizer_reset num dm BaseNormalizer = BaseNormalizer"
  using assms
proof (induction ops arbitrary: n)
  case Nil
  then show ?case by simp
next
  case (Cons c ops)
  show ?case
  proof (cases c)
    case (Call u' x')
    from is_identity_call [OF Cons.prems, of num u' x']
    have a: "fst (normalizer_call num u' x' n) = x'"
      and b: "is_identity (snd (normalizer_call num u' x' n))" by simp_all
    from Cons.IH [OF b] a Call show ?thesis by (simp add: case_prod_beta)
  next
    case (Reset dm')
    from Cons.IH [OF is_identity_reset [OF Cons.prems, of num dm']] Reset
    show ?thesis by simp
  qed
qed

theorem identity_normalizer_witness:
  "normalizer_run sample_numerics [Call True [6, 12], Reset (Some [True]), Call False [3], Reset None, Call True [9]]
     (MovingAvgNormalizer BaseNormalizer
        \<lparr>shape = [], center = False, scale = False, gamma = 1, clip = None\<rparr> (0, 0)) =
   ([(True, [6, 12]), (False, [3]), (True, [9])],
    MovingAvgNormalizer BaseNormalizer
        \<lparr>shape = [], center = False, scale = False, gamma = 1, clip = None\<rparr> (1, 9))"
  using identity_normalizer [of "MovingAvgNormalizer BaseNormalizer
        \<lparr>shape = [], center = False, scale = False, gamma = 1, clip = None\<rparr> (0, 0)" sample_numerics
      "[Call True [6, 12], Reset (Some [True]), Call False [3], Reset None, Call True [9]]"]
  by (simp add: sample_defs transform_def)

text \<open>
  C9. In every state a constructed wrapper can reach, \<open>envs_test\<close> and \<open>envs\<close> are the same
  reference, into the store. So \<open>step_test\<close> advances, and \<open>reset_test\<close> resets, the very
  environment set at the reference \<open>envs\<close>, the one \<open>step\<close> and \<open>reset\<close> work on.
\<close>

theorem shared_environment_set:
  assumes "reachable lib num (w, \<sigma>)"
  shows "envs_test w = envs w \<and>
    (\<exists>h. envs w = Some h \<and> h < length \<sigma> \<and>
       (\<forall>a obs rews dones infos e'.
          env_step lib a (\<sigma> ! h) = Some ((obs, rews, dones, infos), e') \<longrightarrow>
          step_test lib num a (w, \<sigma>) = Inr ((obs, rews, dones, infos), (w, \<sigma>[h := e'])) \<and>
          (\<exists>r w'. step lib num a (w, \<sigma>) = Inr (r, (w', \<sigma>[h := e'])))) \<and>
       (\<forall>obs e'.
          env_reset lib (\<sigma> ! h) = Some (obs, e') \<longrightarrow>
          reset_test lib num (w, \<sigma>) = Inr (obs, (w, \<sigma>[h := e'])) \<and>
          (\<exists>r w'. reset lib num (w, \<sigma>) = Inr (r, (w', \<sigma>[h := e'])))))"
proof -
  from wrapper_invD [OF reachable_inv [OF assms]] obtain h where
    same: "envs_test w = envs w" and h: "envs w = Some h" "h < length \<sigma>"
    and base: "state_normalizer w = BaseNormalizer"
    by blast
  from same h have ht: "envs_test w = Some h" by simp
  have st: "\<forall>a obs rews dones infos e'.
          env_step lib a (\<sigma> ! h) = Some ((obs, rews, dones, infos), e') \<longrightarrow>
          step_test lib num a (w, \<sigma>) = Inr ((obs, rews, dones, infos), (w, \<sigma>[h := e'])) \<and>
          (\<exists>r w'. step lib num a (w, \<sigma>) = Inr (r, (w', \<sigma>[h := e'])))"
  proof (intro allI impI conjI)
    fix a obs rews dones infos e'
    assume e: "env_step lib a (\<sigma> ! h) = Some ((obs, rews, dones, infos), e')"
    show "step_test lib num a (w, \<sigma>) = Inr ((obs, rews, dones, infos), (w, \<sigma>[h := e']))"
      by (rule step_test_Base [OF ht h(2) base e])
    show "\<exists>r w'. step lib num a (w, \<sigma>) = Inr (r, (w', \<sigma>[h := e']))"
      using step_Base [OF h base e, of num] by blast
  qed
  have rt: "\<forall>obs e'.
          env_reset lib (\<sigma> ! h) = Some (obs, e') \<longrightarrow>
          reset_test lib num (w, \<sigma>) = Inr (obs, (w, \<sigma>[h := e'])) \<and>
          (\<exists>r w'. reset lib num (w, \<sigma>) = Inr (r, (w', \<sigma>[h := e'])))"
  proof (intro allI impI conjI)
    fix obs e'
    assume e: "env_reset lib (\<sigma> ! h) = Some (obs, e')"
    show "reset_test lib num (w, \<sigma>) = Inr (obs, (w, \<sigma>[h := e']))"
      by (rule reset_test_Base [OF ht h(2) base e])
    show "\<exists>r w'. reset lib num (w, \<sigma>) = Inr (r, (w', \<sigma>[h := e']))"
      using reset_Base [OF h base e, of num] by blast
  qed
  from same h st rt show ?thesis by blast
qed

theorem shared_environment_set_witness:
  "envs_test sample_wrapper = envs sample_wrapper \<and> envs sample_wrapper = Some 0 \<and>
   step_test sample_env sample_numerics 6 (sample_wrapper, [0]) =
     Inr (([1, 6], [6, 12], [False, False], ''info''), (sample_wrapper, [1])) \<and>
   reset_test sample_env sample_numerics (sample_wrapper, [0]) = Inr ([0, 0], (sample_wrapper, [0]))"
  using shared_environment_set [OF sample_reachable]
  by (simp add: sample_defs)

text \<open>
  C10. Whatever \<open>norm_obs\<close> is, the constructed wrapper's state normalizer is
  \<^verbatim>\<open>BaseNormalizer\<close>; \<open>norm_obs\<close> is stored and is forwarded as \<open>normalize_obs\<close> in every
  element of \<open>env_fns\<close>, and two constructions that differ in \<open>norm_obs\<close> only give wrappers
  that differ at most in \<open>norm_obs\<close>, \<open>env_fns\<close> and what the environment library returned
  (\<open>last_obs\<close>). In every reachable state the state normalizer is still \<^verbatim>\<open>BaseNormalizer\<close>,
  and \<open>step\<close> and \<open>reset\<close> return the observations exactly as the environment set gave them.
\<close>

theorem state_normalizer_pass_through:
  "(wrapper_init lib num args \<sigma>0 = Inr (w, \<sigma>) \<longrightarrow>
      state_normalizer w = BaseNormalizer \<and> norm_obs w = arg_norm_obs args \<and>
      list_all (\<lambda>f. fn_normalize_obs f = arg_norm_obs args) (env_fns w)) \<and>
   (wrapper_init lib num args \<sigma>0 = Inr (w, \<sigma>) \<and>
    wrapper_init lib num (args\<lparr>arg_norm_obs := b\<rparr>) \<sigma>0 = Inr (w2, \<sigma>2) \<longrightarrow>
      w2\<lparr>norm_obs := norm_obs w, env_fns := env_fns w, last_obs := last_obs w\<rparr> = w \<and>
      env_fns w2 = map (\<lambda>f. f\<lparr>fn_normalize_obs := b\<rparr>) (env_fns w)) \<and>
   (reachable lib num (w, \<sigma>) \<longrightarrow>
      state_normalizer w = BaseNormalizer \<and>
      (\<forall>a h obs rews dones infos e'.
         envs w = Some h \<and> env_step lib a (\<sigma> ! h) = Some ((obs, rews, dones, infos), e') \<longrightarrow>
         (\<exists>r s'. step lib num a (w, \<sigma>) = Inr ((obs, r, dones, infos), s'))) \<and>
      (\<forall>h obs e'.
         envs w = Some h \<and> env_reset lib (\<sigma> ! h) = Some (obs, e') \<longrightarrow>
         (\<exists>s'. reset lib num (w, \<sigma>) = Inr (obs, s'))))"
proof (intro conjI impI)
  assume "wrapper_init lib num args \<sigma>0 = Inr (w, \<sigma>)"
  from init_state_normalizer [OF this]
  show "state_normalizer w = BaseNormalizer" and "norm_obs w = arg_norm_obs args"
    and "list_all (\<lambda>f. fn_normalize_obs f = arg_norm_obs args) (env_fns w)"
    by simp_all
next
  assume "wrapper_init lib num args \<sigma>0 = Inr (w, \<sigma>) \<and>
    wrapper_init lib num (args\<lparr>arg_norm_obs := b\<rparr>) \<sigma>0 = Inr (w2, \<sigma>2)"
  then have both: "w2\<lparr>norm_obs := norm_obs w, env_fns := env_fns w, last_obs := last_obs w\<rparr> = w \<and>
         env_fns w2 = map (\<lambda>f. f\<lparr>fn_normalize_obs := b\<rparr>) (env_fns w)"
    using init_norm_obs_only by blast
  from both show "w2\<lparr>norm_obs := norm_obs w, env_fns := env_fns w, last_obs := last_obs w\<rparr> = w" ..
  from both show "env_fns w2 = map (\<lambda>f. f\<lparr>fn_normalize_obs := b\<rparr>) (env_fns w)" ..
next
  assume r: "reachable lib num (w, \<sigma>)"
  from wrapper_invD [OF reachable_inv [OF r]] obtain k where
    k: "envs w = Some k" "k < length \<sigma>" and base: "state_normalizer w = BaseNormalizer"
    by blast
  show "state_normalizer w = BaseNormalizer" by (rule base)
  show "\<forall>a h obs rews dones infos e'.
         envs w = Some h \<and> env_step lib a (\<sigma> ! h) = Some ((obs, rews, dones, infos), e') \<longrightarrow>
         (\<exists>r s'. step lib num a (w, \<sigma>) = Inr ((obs, r, dones, infos), s'))"
  proof (intro allI impI)
    fix a h obs rews dones infos e'
    assume "envs w = Some h \<and> env_step lib a (\<sigma> ! h) = Some ((obs, rews, dones, infos), e')"
    with k have e: "env_step lib a (\<sigma> ! k) = Some ((obs, rews, dones, infos), e')" by simp
    from step_Base [OF k base e, of num]
    show "\<exists>r s'. step lib num a (w, \<sigma>) = Inr ((obs, r, dones, infos), s')" by blast
  qed
  show "\<forall>h obs e'.
         envs w = Some h \<and> env_reset lib (\<sigma> ! h) = Some (obs, e') \<longrightarrow>
         (\<exists>s'. reset lib num (w, \<sigma>) = Inr (obs, s'))"
  proof (intro allI impI)
    fix h obs e'
    assume "envs w = Some h \<and> env_reset lib (\<sigma> ! h) = Some (obs, e')"
    with k have e: "env_reset lib (\<sigma> ! k) = Some (obs, e')" by simp
    from reset_Base [OF k base e, of num]
    show "\<exists>s'. reset lib num (w, \<sigma>) = Inr (obs, s')" by blast
  qed
qed

theorem state_normalizer_pass_through_witness:
  "state_normalizer sample_wrapper = BaseNormalizer \<and>
   state_normalizer (sample_wrapper\<lparr>norm_obs := Some False,
            env_fns := map (\<lambda>f. f\<lparr>fn_normalize_obs := Some False\<rparr>) (env_fns sample_wrapper)\<rparr>) =
     BaseNormalizer \<and>
   (\<exists>r s'. step sample_env sample_numerics 6 (sample_wrapper, [0]) =
      Inr (([1, 6], r, [False, False], ''info''), s')) \<and>
   (\<exists>s'. reset sample_env sample_numerics (sample_wrapper, [0]) = Inr ([0, 0], s'))"
  using state_normalizer_pass_through [of sample_env sample_numerics sample_args "[]"
      sample_wrapper "[0]" "Some False"
      "sample_wrapper\<lparr>norm_obs := Some False,
            env_fns := map (\<lambda>f. f\<lparr>fn_normalize_obs := Some False\<rparr>) (env_fns sample_wrapper)\<rparr>" "[0]"]
    sample_init sample_init_no_norm_obs sample_reachable
  by (simp add: sample_defs)

end
